theory Spec2Isabelle
  imports Complex_Main "HOL-Library.AList" "HOL-Library.Sublist"
begin

section \<open>Stored values\<close>

text \<open>
  The orders backend (\<^verbatim>\<open>main.py\<close>) handles documents of a document store: Python
  dictionaries from field names to BSON values. A dictionary is an association list in
  insertion order; \<open>AList.update\<close> is Python's \<^verbatim>\<open>d[k] = v\<close> (an existing key keeps its
  place, a new key goes to the end) and \<open>AList.delete\<close> removes a key.
\<close>

text \<open>An \<^verbatim>\<open>ObjectId\<close> holds bytes; they are kept as their lower-case hex digits.\<close>

datatype objectid = Oid string

text \<open>
  A \<^verbatim>\<open>datetime\<close> is represented by the calendar fields of its instant in UTC.
  \<^verbatim>\<open>astimezone(timezone.utc)\<close> changes the zone of a datetime and keeps its instant,
  so it is the identity on this representation.
\<close>

record datetime =
  year :: nat
  month :: nat
  day :: nat
  hour :: nat
  minute :: nat
  second :: nat
  microsecond :: nat

datatype val =
    VNull
  | VBool bool
  | VInt int
  | VFloat rat
  | VStr string
  | VOid objectid
  | VDate datetime
  | VList "val list"
  | VDict "(string \<times> val) list"

type_synonym doc = "(string \<times> val) list"

text \<open>A Python dictionary has each key once.\<close>

definition wf_doc :: "doc \<Rightarrow> bool" where
  "wf_doc d = distinct (map fst d)"

text \<open>Python's truth value of \<^verbatim>\<open>doc\<close>: \<^verbatim>\<open>None\<close> and the empty dictionary are false.\<close>

fun truthy_doc :: "doc option \<Rightarrow> bool" where
  "truthy_doc None = False"
| "truthy_doc (Some d) = (d \<noteq> [])"

section \<open>Exceptions\<close>

text \<open>
  \<open>HTTPException\<close> is raised by the handlers; \<open>RequestValidationError\<close> by the framework
  when a declared constraint of a query parameter fails; \<open>KeyError\<close> by \<^verbatim>\<open>dict.pop\<close>;
  \<open>InvalidId\<close> by \<^verbatim>\<open>ObjectId(...)\<close>; \<open>PyMongoError\<close> by a call of the store.
\<close>

datatype exn =
    HTTPException nat string
  | RequestValidationError
  | KeyError string
  | InvalidId
  | PyMongoError

text \<open>
  The status the framework answers with: an \<open>HTTPException\<close> carries its own, a
  validation error is 422, any other exception that leaves a handler is 500.
\<close>

fun status_code :: "exn \<Rightarrow> nat" where
  "status_code (HTTPException c detail) = c"
| "status_code RequestValidationError = 422"
| "status_code e = 500"

fun http_status :: "exn + 'a \<Rightarrow> nat" where
  "http_status (Inl e) = status_code e"
| "http_status (Inr r) = 200"

section \<open>Strings and identifiers\<close>

definition to_lower :: "char \<Rightarrow> char" where
  "to_lower c =
     (case map_of (zip ''ABCDEFGHIJKLMNOPQRSTUVWXYZ'' ''abcdefghijklmnopqrstuvwxyz'') c of
        Some l \<Rightarrow> l
      | None \<Rightarrow> c)"

definition is_hex :: "char \<Rightarrow> bool" where
  "is_hex c = (c \<in> set ''0123456789abcdefABCDEF'')"

definition isspace :: "char \<Rightarrow> bool" where
  "isspace c = (c \<in> set [CHR '' '', CHR 0x09, CHR 0x0A, CHR 0x0B, CHR 0x0C, CHR 0x0D])"

text \<open>
  \<^verbatim>\<open>bytes.fromhex\<close>: two adjacent hex digits for each byte, ASCII whitespace skipped
  before a byte; \<open>None\<close> is its \<^verbatim>\<open>ValueError\<close>. The bytes are returned as hex digits.
\<close>

fun fromhex :: "string \<Rightarrow> string option" where
  "fromhex [] = Some []"
| "fromhex [c] = (if isspace c then Some [] else None)"
| "fromhex (c # d # cs) =
     (if isspace c then fromhex (d # cs)
      else if is_hex c \<and> is_hex d
        then map_option (\<lambda>r. to_lower c # to_lower d # r) (fromhex cs)
      else None)"

text \<open>
  \<^verbatim>\<open>ObjectId(order_id)\<close> on a string: 24 characters that \<^verbatim>\<open>bytes.fromhex\<close> accepts,
  \<^verbatim>\<open>InvalidId\<close> otherwise.
\<close>

definition ObjectId :: "string \<Rightarrow> exn + objectid" where
  "ObjectId s =
     (if length s = 24
      then (case fromhex s of Some h \<Rightarrow> Inr (Oid h) | None \<Rightarrow> Inl InvalidId)
      else Inl InvalidId)"

text \<open>\<^verbatim>\<open>str.lstrip(chars)\<close> and \<^verbatim>\<open>str.startswith(prefix)\<close>.\<close>

definition lstrip :: "string \<Rightarrow> string \<Rightarrow> string" where
  "lstrip s chars = dropWhile (\<lambda>c. c \<in> set chars) s"

definition startswith :: "string \<Rightarrow> string \<Rightarrow> bool" where
  "startswith s p = (take (length p) s = p)"

section \<open>Timestamps as text\<close>

definition digit_char :: "nat \<Rightarrow> char" where
  "digit_char n = ''0123456789'' ! (n mod 10)"

text \<open>The last \<open>w\<close> decimal digits of \<open>n\<close>, zero padded (\<^verbatim>\<open>"%0wd"\<close> for \<open>n < 10 ^ w\<close>).\<close>

fun zpad :: "nat \<Rightarrow> nat \<Rightarrow> string" where
  "zpad 0 n = []"
| "zpad (Suc w) n = zpad w (n div 10) @ [digit_char n]"

text \<open>
  \<^verbatim>\<open>v.astimezone(timezone.utc).isoformat()\<close>: the fields of the instant in UTC, the
  microseconds when they are not zero, and the offset of UTC.
\<close>

definition utc_isoformat :: "datetime \<Rightarrow> string" where
  "utc_isoformat t =
     zpad 4 (year t) @ ''-'' @ zpad 2 (month t) @ ''-'' @ zpad 2 (day t) @ ''T'' @
     zpad 2 (hour t) @ '':'' @ zpad 2 (minute t) @ '':'' @ zpad 2 (second t) @
     (if microsecond t = 0 then [] else ''.'' @ zpad 6 (microsecond t)) @
     ''+00:00''"

section \<open>The store\<close>

text \<open>
  A filter is a dictionary of clauses, all of which must hold: \<^verbatim>\<open>"$or": [{f: c}, ...]\<close>
  or \<^verbatim>\<open>f: v\<close>. The only condition in use is \<^verbatim>\<open>{"$regex": p, "$options": o}\<close>.
\<close>

datatype cond = Regex string string

datatype clause = Or "(string \<times> cond) list" | Eq string val

text \<open>An update document: \<^verbatim>\<open>{"$set": {...}}\<close>.\<close>

datatype update = Set "(string \<times> val) list"

text \<open>
  A cursor records what \<^verbatim>\<open>find\<close>, \<^verbatim>\<open>sort\<close>, \<^verbatim>\<open>skip\<close> and \<^verbatim>\<open>limit\<close> were given; the
  store is asked when the cursor is iterated.
\<close>

record cursor =
  c_filter :: "clause list"
  c_sort :: "(string \<times> int) option"
  c_skip :: int
  c_limit :: int

datatype store_call =
    CountDocuments "clause list"
  | Find cursor
  | FindOne "clause list"
  | UpdateOne "clause list" update

text \<open>
  What the program takes from outside its own code:
  \<^item> \<open>str_other\<close>: Python's \<^verbatim>\<open>str\<close> on a value that is neither an \<^verbatim>\<open>ObjectId\<close> nor a string;
  \<^item> \<open>regex_other\<close>: the store's regular-expression engine (pattern, options, subject)
    outside the patterns and subjects for which it is defined below;
  \<^item> \<open>sort_docs\<close>: the store's ordering of documents by a field and a direction;
  \<^item> \<open>raises\<close>: the calls of the store that fail (server unreachable, rejected query).
\<close>

record runtime =
  str_other :: "val \<Rightarrow> string"
  regex_other :: "string \<Rightarrow> string \<Rightarrow> string \<Rightarrow> bool"
  sort_docs :: "string \<Rightarrow> int \<Rightarrow> doc list \<Rightarrow> doc list"
  raises :: "store_call \<Rightarrow> bool"

text \<open>The collection \<^verbatim>\<open>db["order"]\<close>: its documents, and the calls made to it so far.\<close>

record store =
  docs :: "doc list"
  calls :: "store_call list"

fun py_str :: "runtime \<Rightarrow> val \<Rightarrow> string" where
  "py_str rt (VOid (Oid h)) = h"
| "py_str rt (VStr s) = s"
| "py_str rt v = str_other rt v"

subsection \<open>Regular expressions\<close>

text \<open>
  The store searches a subject for a regular expression. The search is defined here for
  ASCII patterns made of literal characters and \<^verbatim>\<open>.\<close> (any character but a newline),
  under no option or the option \<^verbatim>\<open>i\<close> (which folds the letters), in an ASCII subject.
  For any other pattern, option or subject it is the parameter \<open>regex_other\<close>; a pattern
  that the store rejects makes the call fail, which is \<open>raises\<close>.
\<close>

definition is_ascii :: "char \<Rightarrow> bool" where
  "is_ascii c = (\<not> digit7 c)"

definition rx_meta :: "char \<Rightarrow> bool" where
  "rx_meta c = (c \<in> set (CHR 0x5C # ''.^$*+?()[]{}|''))"

datatype rx_item = RLit char | RAny

fun rx_parse :: "string \<Rightarrow> rx_item list option" where
  "rx_parse [] = Some []"
| "rx_parse (c # cs) =
     (if c = CHR ''.'' then map_option ((#) RAny) (rx_parse cs)
      else if rx_meta c then None
      else map_option ((#) (RLit c)) (rx_parse cs))"

fun rx_here :: "bool \<Rightarrow> rx_item list \<Rightarrow> string \<Rightarrow> bool" where
  "rx_here ci [] s = True"
| "rx_here ci (i # is) [] = False"
| "rx_here ci (RLit c # is) (x # xs) =
     ((if ci then to_lower c = to_lower x else c = x) \<and> rx_here ci is xs)"
| "rx_here ci (RAny # is) (x # xs) = (x \<noteq> CHR 0x0A \<and> rx_here ci is xs)"

fun rx_find :: "bool \<Rightarrow> rx_item list \<Rightarrow> string \<Rightarrow> bool" where
  "rx_find ci is [] = rx_here ci is []"
| "rx_find ci is (x # xs) = (rx_here ci is (x # xs) \<or> rx_find ci is xs)"

definition regex_search :: "runtime \<Rightarrow> string \<Rightarrow> string \<Rightarrow> string \<Rightarrow> bool" where
  "regex_search rt p opts s =
     (case (if list_all (\<lambda>c. c = CHR ''i'') opts \<and> list_all is_ascii p \<and> list_all is_ascii s
            then rx_parse p else None) of
        Some is \<Rightarrow> rx_find (opts \<noteq> []) is s
      | None \<Rightarrow> regex_other rt p opts s)"

subsection \<open>Filters\<close>

text \<open>
  A regular expression holds of a field whose value is a string that the engine finds it
  in, or an array with such a string among its elements. An equality clause holds of a
  field whose stored value is the given one, or an array with the given value among its
  elements. A filter matches a document when all its clauses hold.
\<close>

fun cond_holds :: "runtime \<Rightarrow> val option \<Rightarrow> cond \<Rightarrow> bool" where
  "cond_holds rt (Some (VStr s)) (Regex p opts) = regex_search rt p opts s"
| "cond_holds rt (Some (VList vs)) (Regex p opts) =
     list_ex (\<lambda>v. case v of VStr s \<Rightarrow> regex_search rt p opts s | _ \<Rightarrow> False) vs"
| "cond_holds rt v (Regex p opts) = False"

fun clause_holds :: "runtime \<Rightarrow> doc \<Rightarrow> clause \<Rightarrow> bool" where
  "clause_holds rt d (Or alts) = list_ex (\<lambda>(f, c). cond_holds rt (map_of d f) c) alts"
| "clause_holds rt d (Eq f v) =
     (case map_of d f of
        Some (VList vs) \<Rightarrow> VList vs = v \<or> v \<in> set vs
      | x \<Rightarrow> x = Some v)"

definition matches :: "runtime \<Rightarrow> clause list \<Rightarrow> doc \<Rightarrow> bool" where
  "matches rt flt d = list_all (clause_holds rt d) flt"

definition find_c :: "clause list \<Rightarrow> cursor" where
  "find_c flt = \<lparr>c_filter = flt, c_sort = None, c_skip = 0, c_limit = 0\<rparr>"

definition sort_c :: "string \<Rightarrow> int \<Rightarrow> cursor \<Rightarrow> cursor" where
  "sort_c f dir c = c\<lparr>c_sort := Some (f, dir)\<rparr>"

definition skip_c :: "int \<Rightarrow> cursor \<Rightarrow> cursor" where
  "skip_c n c = c\<lparr>c_skip := n\<rparr>"

definition limit_c :: "int \<Rightarrow> cursor \<Rightarrow> cursor" where
  "limit_c n c = c\<lparr>c_limit := n\<rparr>"

definition logged :: "store \<Rightarrow> store_call \<Rightarrow> store" where
  "logged st c = st\<lparr>calls := calls st @ [c]\<rparr>"

definition count_documents :: "runtime \<Rightarrow> store \<Rightarrow> clause list \<Rightarrow> (exn + int) \<times> store" where
  "count_documents rt st flt =
     (if raises rt (CountDocuments flt) then (Inl PyMongoError, logged st (CountDocuments flt))
      else (Inr (int (length (filter (matches rt flt) (docs st)))),
            logged st (CountDocuments flt)))"

text \<open>
  Iterating a cursor: the matching documents, ordered, without the skipped ones, up to
  the limit (a limit of 0 is no limit).
\<close>

definition cursor_result :: "runtime \<Rightarrow> doc list \<Rightarrow> cursor \<Rightarrow> doc list" where
  "cursor_result rt ds c =
     (let found = filter (matches rt (c_filter c)) ds;
          ordered = (case c_sort c of None \<Rightarrow> found | Some (f, dir) \<Rightarrow> sort_docs rt f dir found);
          skipped = drop (nat (c_skip c)) ordered
      in if c_limit c = 0 then skipped else take (nat (c_limit c)) skipped)"

definition iterate :: "runtime \<Rightarrow> store \<Rightarrow> cursor \<Rightarrow> (exn + doc list) \<times> store" where
  "iterate rt st c =
     (if raises rt (Find c) then (Inl PyMongoError, logged st (Find c))
      else (Inr (cursor_result rt (docs st) c), logged st (Find c)))"

definition find_one :: "runtime \<Rightarrow> store \<Rightarrow> clause list \<Rightarrow> (exn + doc option) \<times> store" where
  "find_one rt st flt =
     (if raises rt (FindOne flt) then (Inl PyMongoError, logged st (FindOne flt))
      else (Inr (find (matches rt flt) (docs st)), logged st (FindOne flt)))"

subsection \<open>Writes\<close>

text \<open>
  The store keeps a timestamp to the millisecond: a value is written with the
  microseconds of every timestamp in it cut to a multiple of 1000.
\<close>

definition to_millis :: "datetime \<Rightarrow> datetime" where
  "to_millis t = t\<lparr>microsecond := (microsecond t div 1000) * 1000\<rparr>"

fun stored :: "val \<Rightarrow> val" where
  "stored (VDate t) = VDate (to_millis t)"
| "stored (VList vs) = VList (map stored vs)"
| "stored (VDict kvs) = VDict (map (\<lambda>kv. (fst kv, stored (snd kv))) kvs)"
| "stored v = v"

fun apply_update :: "update \<Rightarrow> doc \<Rightarrow> doc" where
  "apply_update (Set kvs) d = foldl (\<lambda>acc (k, v). AList.update k (stored v) acc) d kvs"

text \<open>The first document that matches is updated; the result is the matched count.\<close>

fun update_first :: "(doc \<Rightarrow> bool) \<Rightarrow> (doc \<Rightarrow> doc) \<Rightarrow> doc list \<Rightarrow> doc list \<times> nat" where
  "update_first P f [] = ([], 0)"
| "update_first P f (d # ds) =
     (if P d then (f d # ds, 1)
      else (case update_first P f ds of (ds', n) \<Rightarrow> (d # ds', n)))"

definition update_one ::
  "runtime \<Rightarrow> store \<Rightarrow> clause list \<Rightarrow> update \<Rightarrow> (exn + nat) \<times> store" where
  "update_one rt st flt upd =
     (if raises rt (UpdateOne flt upd) then (Inl PyMongoError, logged st (UpdateOne flt upd))
      else (case update_first (matches rt flt) (apply_update upd) (docs st) of
              (ds', n) \<Rightarrow> (Inr n, (logged st (UpdateOne flt upd))\<lparr>docs := ds'\<rparr>)))"

section \<open>The serializer\<close>

text \<open>
  \<^verbatim>\<open>serialize_id(doc)\<close> changes the dictionary it is given and returns it: the result
  is also the new content of the argument. When \<^verbatim>\<open>pop\<close> raises, nothing was changed.
\<close>

text \<open>The loop \<^verbatim>\<open>for k, v in list(doc.items())\<close> over a snapshot of the fields.\<close>

definition convert_datetimes :: "doc \<Rightarrow> doc" where
  "convert_datetimes d =
     foldl (\<lambda>acc (k, v). case v of VDate t \<Rightarrow> AList.update k (VStr (utc_isoformat t)) acc
                               | _ \<Rightarrow> acc) d d"

definition serialize_id :: "runtime \<Rightarrow> doc option \<Rightarrow> exn + doc option" where
  "serialize_id rt doc =
     (case doc of
        None \<Rightarrow> Inr None
      | Some d \<Rightarrow>
          if d = [] then Inr (Some d)
          else (case map_of d ''_id'' of
                  None \<Rightarrow> Inl (KeyError ''_id'')
                | Some v \<Rightarrow>
                    Inr (Some (convert_datetimes
                      (AList.update ''id'' (VStr (py_str rt v)) (AList.delete ''_id'' d))))))"

text \<open>\<^verbatim>\<open>[serialize_id(doc) for doc in cursor]\<close>: the first exception ends the listing.\<close>

fun serialize_all :: "runtime \<Rightarrow> doc list \<Rightarrow> exn + doc option list" where
  "serialize_all rt [] = Inr []"
| "serialize_all rt (d # ds) =
     (case serialize_id rt (Some d) of
        Inl e \<Rightarrow> Inl e
      | Inr x \<Rightarrow> (case serialize_all rt ds of Inl e \<Rightarrow> Inl e | Inr xs \<Rightarrow> Inr (x # xs)))"

section \<open>The handlers\<close>

record listing =
  r_items :: "doc option list"
  r_page :: int
  r_page_size :: int
  r_total :: int

record StatusUpdate =
  status :: string

definition build_filter :: "string option \<Rightarrow> string option \<Rightarrow> clause list" where
  "build_filter q stat =
     (case q of
        Some s \<Rightarrow>
          if s \<noteq> [] then [Or [(''order_number'', Regex s ''i''),
                               (''customer_name'', Regex s ''i''),
                               (''email'', Regex s ''i'')]]
          else []
      | None \<Rightarrow> []) @
     (case stat of
        Some s \<Rightarrow> if s \<noteq> [] then [Eq ''status'' (VStr s)] else []
      | None \<Rightarrow> [])"

definition sort_field :: "string \<Rightarrow> string" where
  "sort_field sort_spec = lstrip sort_spec ''-''"

definition direction :: "string \<Rightarrow> int" where
  "direction sort_spec = (if startswith sort_spec ''-'' then - 1 else 1)"

definition orders_cursor :: "clause list \<Rightarrow> string \<Rightarrow> int \<Rightarrow> int \<Rightarrow> cursor" where
  "orders_cursor filter_query sort_spec page page_size =
     limit_c page_size
       (skip_c ((page - 1) * page_size)
         (sort_c (sort_field sort_spec) (direction sort_spec) (find_c filter_query)))"

text \<open>
  \<^verbatim>\<open>GET /api/orders\<close>. The declared constraints \<^verbatim>\<open>page >= 1\<close> and
  \<^verbatim>\<open>1 <= page_size <= 100\<close> are checked by the framework before the body runs.
\<close>

definition list_orders ::
  "runtime \<Rightarrow> store option \<Rightarrow> string option \<Rightarrow> string option \<Rightarrow> string \<Rightarrow> int \<Rightarrow> int
     \<Rightarrow> (exn + listing) \<times> store option" where
  "list_orders rt db q stat sort_spec page page_size =
     (if page < 1 \<or> page_size < 1 \<or> 100 < page_size then (Inl RequestValidationError, db)
      else case db of
        None \<Rightarrow> (Inl (HTTPException 500 ''Database not configured''), None)
      | Some st \<Rightarrow>
          let filter_query = build_filter q stat in
          (case count_documents rt st filter_query of
             (Inl e, st1) \<Rightarrow> (Inl e, Some st1)
           | (Inr total_count, st1) \<Rightarrow>
               (case iterate rt st1 (orders_cursor filter_query sort_spec page page_size) of
                  (Inl e, st2) \<Rightarrow> (Inl e, Some st2)
                | (Inr ds, st2) \<Rightarrow>
                    (case serialize_all rt ds of
                       Inl e \<Rightarrow> (Inl e, Some st2)
                     | Inr its \<Rightarrow>
                         (Inr \<lparr>r_items = its, r_page = page, r_page_size = page_size,
                               r_total = total_count\<rparr>, Some st2)))))"

text \<open>
  \<^verbatim>\<open>GET /api/orders/{order_id}\<close>. The \<^verbatim>\<open>try\<close> block holds both the construction of
  the \<^verbatim>\<open>ObjectId\<close> and the call of \<^verbatim>\<open>find_one\<close>, and \<^verbatim>\<open>except Exception\<close> catches
  what either raises.
\<close>

definition get_order ::
  "runtime \<Rightarrow> store option \<Rightarrow> string \<Rightarrow> (exn + doc option) \<times> store option" where
  "get_order rt db order_id =
     (case db of
        None \<Rightarrow> (Inl (HTTPException 500 ''Database not configured''), None)
      | Some st \<Rightarrow>
          (case ObjectId order_id of
             Inl e \<Rightarrow> (Inl (HTTPException 400 ''Invalid order id''), Some st)
           | Inr oid \<Rightarrow>
               (case find_one rt st [Eq ''_id'' (VOid oid)] of
                  (Inl e, st1) \<Rightarrow> (Inl (HTTPException 400 ''Invalid order id''), Some st1)
                | (Inr doc, st1) \<Rightarrow>
                    if \<not> truthy_doc doc
                    then (Inl (HTTPException 404 ''Order not found''), Some st1)
                    else (serialize_id rt doc, Some st1))))"

text \<open>
  \<^verbatim>\<open>PATCH /api/orders/{order_id}/status\<close>. Here the \<^verbatim>\<open>try\<close> block holds the
  construction of the \<^verbatim>\<open>ObjectId\<close> only. \<open>now\<close> is \<^verbatim>\<open>datetime.now(timezone.utc)\<close>.
\<close>

definition update_order_status ::
  "runtime \<Rightarrow> store option \<Rightarrow> string \<Rightarrow> StatusUpdate \<Rightarrow> datetime
     \<Rightarrow> (exn + doc option) \<times> store option" where
  "update_order_status rt db order_id payload now =
     (case db of
        None \<Rightarrow> (Inl (HTTPException 500 ''Database not configured''), None)
      | Some st \<Rightarrow>
          (case ObjectId order_id of
             Inl e \<Rightarrow> (Inl (HTTPException 400 ''Invalid order id''), Some st)
           | Inr oid \<Rightarrow>
               (case update_one rt st [Eq ''_id'' (VOid oid)]
                       (Set [(''status'', VStr (status payload)), (''updated_at'', VDate now)]) of
                  (Inl e, st1) \<Rightarrow> (Inl e, Some st1)
                | (Inr matched_count, st1) \<Rightarrow>
                    if matched_count = 0
                    then (Inl (HTTPException 404 ''Order not found''), Some st1)
                    else (case find_one rt st1 [Eq ''_id'' (VOid oid)] of
                            (Inl e, st2) \<Rightarrow> (Inl e, Some st2)
                          | (Inr doc, st2) \<Rightarrow> (serialize_id rt doc, Some st2)))))"

section \<open>The notions the specification uses\<close>

text \<open>\<open>q\<close> occurs in \<open>s\<close> as a case-insensitive substring.\<close>

definition ci_substring :: "string \<Rightarrow> string \<Rightarrow> bool" where
  "ci_substring q s = sublist (map to_lower q) (map to_lower s)"

text \<open>
  \<open>q\<close> occurs as a case-insensitive substring of at least one of the record's
  \<^verbatim>\<open>order_number\<close>, \<^verbatim>\<open>customer_name\<close> and \<^verbatim>\<open>email\<close>.
\<close>

definition q_occurs :: "string \<Rightarrow> doc \<Rightarrow> bool" where
  "q_occurs q d =
     list_ex (\<lambda>f. case map_of d f of Some (VStr s) \<Rightarrow> ci_substring q s | _ \<Rightarrow> False)
       [''order_number'', ''customer_name'', ''email'']"

text \<open>A character of a search term that is plain text: ASCII and no metacharacter.\<close>

definition literal_char :: "char \<Rightarrow> bool" where
  "literal_char c = (is_ascii c \<and> \<not> rx_meta c)"

text \<open>
  A record whose \<^verbatim>\<open>order_number\<close>, \<^verbatim>\<open>customer_name\<close> and \<^verbatim>\<open>email\<close> are ASCII text
  where they are strings and are not arrays, and whose \<^verbatim>\<open>status\<close> is not an array.
\<close>

definition text_record :: "doc \<Rightarrow> bool" where
  "text_record d =
     (list_all (\<lambda>f. case map_of d f of Some (VStr s) \<Rightarrow> list_all is_ascii s
                                     | Some (VList vs) \<Rightarrow> False
                                     | _ \<Rightarrow> True)
        [''order_number'', ''customer_name'', ''email''] \<and>
      (case map_of d ''status'' of Some (VList vs) \<Rightarrow> False | _ \<Rightarrow> True))"

text \<open>A collection in which no \<^verbatim>\<open>_id\<close> is an array (the store admits none).\<close>

definition scalar_ids :: "store \<Rightarrow> bool" where
  "scalar_ids st =
     list_all (\<lambda>d. case map_of d ''_id'' of Some (VList vs) \<Rightarrow> False | _ \<Rightarrow> True) (docs st)"

text \<open>Stripping a single leading \<^verbatim>\<open>-\<close>.\<close>

fun strip_single_dash :: "string \<Rightarrow> string" where
  "strip_single_dash [] = []"
| "strip_single_dash (c # cs) = (if c = CHR ''-'' then cs else c # cs)"

text \<open>The full filtered and sorted sequence of records, and its slice for a page.\<close>

definition filtered_sorted ::
  "runtime \<Rightarrow> store \<Rightarrow> string option \<Rightarrow> string option \<Rightarrow> string \<Rightarrow> doc list" where
  "filtered_sorted rt st q stat sort_spec =
     sort_docs rt (sort_field sort_spec) (direction sort_spec)
       (filter (matches rt (build_filter q stat)) (docs st))"

definition page_slice :: "doc list \<Rightarrow> int \<Rightarrow> int \<Rightarrow> doc list" where
  "page_slice full page page_size = take (nat page_size) (drop (nat ((page - 1) * page_size)) full)"

text \<open>
  The rendering of a field: a timestamp as ISO-8601 text in UTC, any other value
  unchanged.
\<close>

fun rendered :: "val \<Rightarrow> val" where
  "rendered (VDate t) = VStr (utc_isoformat t)"
| "rendered v = v"

text \<open>A value with no store identifier and no timestamp at any depth.\<close>

fun safe_val :: "val \<Rightarrow> bool" where
  "safe_val (VOid x) = False"
| "safe_val (VDate t) = False"
| "safe_val (VList vs) = list_all safe_val vs"
| "safe_val (VDict kvs) = list_all (\<lambda>kv. safe_val (snd kv)) kvs"
| "safe_val v = True"

section \<open>A sample runtime and store\<close>

text \<open>
  Used to evaluate the handlers at concrete requests: a stable sort on integer and
  timestamp fields, no failing call. \<open>str_other\<close> and \<open>regex_other\<close> are never applied
  below.
\<close>

definition order_key :: "val option \<Rightarrow> int" where
  "order_key v =
     (case v of
        Some (VInt n) \<Rightarrow> n
      | Some (VDate t) \<Rightarrow>
          int ((((((year t * 12 + month t) * 31 + day t) * 24 + hour t) * 60 + minute t) * 60
                + second t) * 1000000 + microsecond t)
      | _ \<Rightarrow> 0)"

definition sample_rt :: runtime where
  "sample_rt =
     \<lparr>str_other = (\<lambda>v. []),
      regex_other = (\<lambda>p opts s. False),
      sort_docs = (\<lambda>f dir ds. sort_key (\<lambda>d. dir * order_key (map_of d f)) ds),
      raises = (\<lambda>c. False)\<rparr>"

text \<open>The same runtime with an unreachable server: every call of the store fails.\<close>

definition down_rt :: runtime where
  "down_rt = sample_rt\<lparr>raises := (\<lambda>c. True)\<rparr>"

definition day_of :: "nat \<Rightarrow> datetime" where
  "day_of n = \<lparr>year = 2024, month = 5, day = n, hour = 9, minute = 30, second = 0,
              microsecond = 0\<rparr>"

definition order_1001 :: doc where
  "order_1001 =
     [(''_id'', VOid (Oid ''64b7f0c2a1b2c3d4e5f60001'')),
      (''order_number'', VStr ''ORD-1001''),
      (''customer_name'', VStr ''Ava Nguyen''),
      (''status'', VStr ''pending''),
      (''created_at'', VDate (day_of 1))]"

definition order_1002 :: doc where
  "order_1002 =
     [(''_id'', VOid (Oid ''64b7f0c2a1b2c3d4e5f60002'')),
      (''order_number'', VStr ''ORD-1002''),
      (''customer_name'', VStr ''Liam Patel''),
      (''status'', VStr ''processing''),
      (''created_at'', VDate (day_of 2))]"

definition order_1003 :: doc where
  "order_1003 =
     [(''_id'', VOid (Oid ''64b7f0c2a1b2c3d4e5f60003'')),
      (''order_number'', VStr ''ORD-1003''),
      (''customer_name'', VStr ''Maya Khan''),
      (''status'', VStr ''shipped''),
      (''created_at'', VDate (day_of 3))]"

definition sample_store :: store where
  "sample_store = \<lparr>docs = [order_1001, order_1002, order_1003], calls = []\<rparr>"

text \<open>A record that refers to a product by its identifier and dates a line item.\<close>

definition nested_order :: doc where
  "nested_order =
     [(''_id'', VOid (Oid ''64b7f0c2a1b2c3d4e5f60004'')),
      (''items'', VList [VDict [(''product_id'', VOid (Oid ''64b7f0c2a1b2c3d4e5f6000a'')),
                                (''shipped_at'', VDate (day_of 4))]])]"

section \<open>Evaluation lemmas\<close>

lemma zpad_numeral: "zpad (numeral k) n = zpad (pred_numeral k) (n div 10) @ [digit_char n]"
proof -
  have "zpad (Suc (pred_numeral k)) n = zpad (pred_numeral k) (n div 10) @ [digit_char n]"
    by (rule zpad.simps(2))
  then show ?thesis by (simp only: numeral_eq_Suc [of k, symmetric])
qed

lemma oid_1001: "ObjectId ''64b7f0c2a1b2c3d4e5f60001'' = Inr (Oid ''64b7f0c2a1b2c3d4e5f60001'')"
  by (simp add: ObjectId_def is_hex_def isspace_def to_lower_def)

lemma oid_bad: "ObjectId ''not-an-id'' = Inl InvalidId"
  by (simp add: ObjectId_def)

section \<open>The serializer needs the identifier field\<close>

text \<open>
  C10. On a non-empty record without the field \<^verbatim>\<open>_id\<close> the serializer raises
  \<^verbatim>\<open>KeyError\<close> and returns no record; on a record with \<^verbatim>\<open>_id\<close> it returns a record, so
  the error is not reachable there.
\<close>

theorem serialize_id_requires_id:
  "(d \<noteq> [] \<and> map_of d ''_id'' = None \<longrightarrow> serialize_id rt (Some d) = Inl (KeyError ''_id'')) \<and>
   (map_of d ''_id'' \<noteq> None \<longrightarrow> (\<exists>out. serialize_id rt (Some d) = Inr (Some out)))"
  by (auto simp: serialize_id_def)

theorem serialize_id_requires_id_witness:
  "serialize_id sample_rt (Some [(''status'', VStr ''pending'')]) = Inl (KeyError ''_id'') \<and>
   (\<exists>out. serialize_id sample_rt (Some order_1001) = Inr (Some out))"
  using serialize_id_requires_id [of "[(''status'', VStr ''pending'')]" sample_rt]
    serialize_id_requires_id [of order_1001 sample_rt]
  by (simp add: order_1001_def)

section \<open>The loop over the fields\<close>

lemma keys_foldl_update:
  "fst ` set (foldl (\<lambda>acc (k, v). case v of VDate t \<Rightarrow> AList.update k (VStr (utc_isoformat t)) acc | _ \<Rightarrow> acc) acc its)
     \<subseteq> fst ` set acc \<union> fst ` set its"
proof (induction its arbitrary: acc)
  case Nil
  then show ?case by simp
next
  case (Cons a its)
  obtain k v where a: "a = (k, v)" by (cases a)
  show ?case using Cons[of "case v of VDate t \<Rightarrow> AList.update k (VStr (utc_isoformat t)) acc | _ \<Rightarrow> acc"]
    by (cases v) (auto simp: a dom_update)
qed

lemma convert_keys: "fst ` set (convert_datetimes d) \<subseteq> fst ` set d"
  unfolding convert_datetimes_def using keys_foldl_update[of d d] by simp

lemma nonempty_foldl_update:
  "acc \<noteq> [] \<Longrightarrow>
   foldl (\<lambda>acc (k, v). case v of VDate t \<Rightarrow> AList.update k (VStr (utc_isoformat t)) acc | _ \<Rightarrow> acc) acc its \<noteq> []"
proof (induction its arbitrary: acc)
  case Nil
  then show ?case by simp
next
  case (Cons a its)
  obtain k v where a: "a = (k, v)" by (cases a)
  have "(case v of VDate t \<Rightarrow> AList.update k (VStr (utc_isoformat t)) acc | _ \<Rightarrow> acc) \<noteq> []"
    using Cons.prems by (cases v) auto
  from Cons.IH[OF this] show ?case by (simp add: a)
qed

lemma convert_nonempty: "d \<noteq> [] \<Longrightarrow> convert_datetimes d \<noteq> []"
  unfolding convert_datetimes_def by (rule nonempty_foldl_update)

lemma distinct_foldl_update:
  "distinct (map fst acc) \<Longrightarrow>
   distinct (map fst (foldl (\<lambda>acc (k, v). case v of VDate t \<Rightarrow> AList.update k (VStr (utc_isoformat t)) acc | _ \<Rightarrow> acc) acc its))"
proof (induction its arbitrary: acc)
  case Nil
  then show ?case by simp
next
  case (Cons a its)
  obtain k v where a: "a = (k, v)" by (cases a)
  have "distinct (map fst (case v of VDate t \<Rightarrow> AList.update k (VStr (utc_isoformat t)) acc | _ \<Rightarrow> acc))"
    using Cons.prems by (cases v) (auto simp: distinct_update)
  from Cons.IH[OF this] show ?case by (simp add: a)
qed

lemma map_of_foldl_update:
  "distinct (map fst its) \<Longrightarrow> (\<And>k v. (k, v) \<in> set its \<Longrightarrow> map_of acc k = Some v) \<Longrightarrow>
   map_of (foldl (\<lambda>acc (k, v). case v of VDate t \<Rightarrow> AList.update k (VStr (utc_isoformat t)) acc | _ \<Rightarrow> acc) acc its) x
     = (if x \<in> fst ` set its then map_option rendered (map_of acc x) else map_of acc x)"
proof (induction its arbitrary: acc)
  case Nil
  then show ?case by simp
next
  case (Cons a its)
  obtain k v where a: "a = (k, v)" by (cases a)
  let ?acc = "case v of VDate t \<Rightarrow> AList.update k (VStr (utc_isoformat t)) acc | _ \<Rightarrow> acc"
  have kv: "map_of acc k = Some v" using Cons.prems(2)[of k v] by (simp add: a)
  have knot: "k \<notin> fst ` set its" using Cons.prems(1) by (simp add: a)
  have other: "\<And>y. y \<noteq> k \<Longrightarrow> map_of ?acc y = map_of acc y"
    by (cases v) (simp_all add: update_conv')
  have same: "map_of ?acc k = Some (rendered v)"
    using kv by (cases v) (simp_all add: update_conv')
  have pre: "\<And>k' v'. (k', v') \<in> set its \<Longrightarrow> map_of ?acc k' = Some v'"
  proof -
    fix k' v' assume m: "(k', v') \<in> set its"
    then have "k' \<noteq> k" using knot by force
    then show "map_of ?acc k' = Some v'" using other Cons.prems(2)[of k' v'] m by simp
  qed
  have d: "distinct (map fst its)" using Cons.prems(1) by simp
  have step: "map_of (foldl (\<lambda>acc (k, v). case v of VDate t \<Rightarrow> AList.update k (VStr (utc_isoformat t)) acc | _ \<Rightarrow> acc) ?acc its) x
     = (if x \<in> fst ` set its then map_option rendered (map_of ?acc x) else map_of ?acc x)"
    using Cons.IH[OF d pre] by blast
  show ?case
  proof (cases "x = k")
    case True
    then show ?thesis using step knot same kv by (cases v) (simp_all add: a)
  next
    case False
    then show ?thesis using step other[OF False] by (simp add: a)
  qed
qed

lemma map_of_convert:
  assumes "distinct (map fst d)"
  shows "map_of (convert_datetimes d) x = map_option rendered (map_of d x)"
proof -
  have "\<And>k v. (k, v) \<in> set d \<Longrightarrow> map_of d k = Some v" using assms by simp
  from map_of_foldl_update[OF assms this, of x]
  have eq: "map_of (convert_datetimes d) x
      = (if x \<in> fst ` set d then map_option rendered (map_of d x) else map_of d x)"
    unfolding convert_datetimes_def .
  show ?thesis
  proof (cases "x \<in> fst ` set d")
    case True
    then show ?thesis using eq by simp
  next
    case False
    then have "map_of d x = None" by (simp add: map_of_eq_None_iff)
    then show ?thesis using eq False by simp
  qed
qed

lemma distinct_convert: "distinct (map fst d) \<Longrightarrow> distinct (map fst (convert_datetimes d))"
  unfolding convert_datetimes_def by (rule distinct_foldl_update)

lemma iso_suffix: "suffix ''+00:00'' (utc_isoformat t)"
  unfolding utc_isoformat_def suffix_def by (metis append.assoc)

section \<open>Serializing twice\<close>

text \<open>
  C2, as stated: a second application of the serializer to the same record succeeds with
  the output of the first. It does not: the first application removed \<^verbatim>\<open>_id\<close> from
  the record, and the second raises \<^verbatim>\<open>KeyError\<close>.
\<close>

theorem serialize_id_twice_counterexample:
  "serialize_id sample_rt (Some order_1002) =
     Inr (Some [(''order_number'', VStr ''ORD-1002''),
                (''customer_name'', VStr ''Liam Patel''),
                (''status'', VStr ''processing''),
                (''created_at'', VStr ''2024-05-02T09:30:00+00:00''),
                (''id'', VStr ''64b7f0c2a1b2c3d4e5f60002'')]) \<and>
   serialize_id sample_rt
     (Some [(''order_number'', VStr ''ORD-1002''),
            (''customer_name'', VStr ''Liam Patel''),
            (''status'', VStr ''processing''),
            (''created_at'', VStr ''2024-05-02T09:30:00+00:00''),
            (''id'', VStr ''64b7f0c2a1b2c3d4e5f60002'')]) = Inl (KeyError ''_id'')"
  by (simp add: serialize_id_def order_1002_def convert_datetimes_def utc_isoformat_def day_of_def
      digit_char_def zpad_numeral)


text \<open>
  C2, amended. The serializer consumes the identifier field: after a successful
  application to a non-empty record, a further application to that record (which is the
  output of the first) raises \<^verbatim>\<open>KeyError\<close> for \<^verbatim>\<open>_id\<close>. On an absent or empty record
  the serializer returns its argument, so there a second application gives the same.
\<close>

theorem serialize_id_consumes_id:
  "(truthy_doc doc \<and> serialize_id rt doc = Inr out \<longrightarrow> serialize_id rt out = Inl (KeyError ''_id'')) \<and>
   (\<not> truthy_doc doc \<longrightarrow> serialize_id rt doc = Inr doc)"
proof (intro conjI impI)
  assume a: "truthy_doc doc \<and> serialize_id rt doc = Inr out"
  then obtain d where d: "doc = Some d" "d \<noteq> []" by (cases doc) auto
  from a d obtain v where v: "map_of d ''_id'' = Some v"
    by (cases "map_of d ''_id''") (auto simp: serialize_id_def)
  let ?d1 = "AList.update ''id'' (VStr (py_str rt v)) (AList.delete ''_id'' d)"
  have out: "out = Some (convert_datetimes ?d1)"
    using a d v by (simp add: serialize_id_def)
  have ne: "convert_datetimes ?d1 \<noteq> []" by (rule convert_nonempty) simp
  have "''_id'' \<notin> fst ` set ?d1" by (simp add: dom_update delete_notin_dom)
  then have "''_id'' \<notin> fst ` set (convert_datetimes ?d1)" using convert_keys[of ?d1] by blast
  then have "map_of (convert_datetimes ?d1) ''_id'' = None" by (simp add: map_of_eq_None_iff)
  then show "serialize_id rt out = Inl (KeyError ''_id'')"
    using ne out by (simp add: serialize_id_def)
next
  assume "\<not> truthy_doc doc"
  then show "serialize_id rt doc = Inr doc"
    by (cases doc) (auto simp: serialize_id_def)
qed



theorem serialize_id_consumes_id_witness:
  "truthy_doc (Some order_1003) \<and>
   serialize_id sample_rt (Some order_1003) =
     Inr (Some [(''order_number'', VStr ''ORD-1003''),
                (''customer_name'', VStr ''Maya Khan''),
                (''status'', VStr ''shipped''),
                (''created_at'', VStr ''2024-05-03T09:30:00+00:00''),
                (''id'', VStr ''64b7f0c2a1b2c3d4e5f60003'')]) \<and>
   serialize_id sample_rt
     (Some [(''order_number'', VStr ''ORD-1003''),
            (''customer_name'', VStr ''Maya Khan''),
            (''status'', VStr ''shipped''),
            (''created_at'', VStr ''2024-05-03T09:30:00+00:00''),
            (''id'', VStr ''64b7f0c2a1b2c3d4e5f60003'')]) = Inl (KeyError ''_id'') \<and>
   \<not> truthy_doc None \<and> serialize_id sample_rt None = Inr None"
proof -
  have t: "truthy_doc (Some order_1003)" by (simp add: order_1003_def)
  have e: "serialize_id sample_rt (Some order_1003) =
     Inr (Some [(''order_number'', VStr ''ORD-1003''),
                (''customer_name'', VStr ''Maya Khan''),
                (''status'', VStr ''shipped''),
                (''created_at'', VStr ''2024-05-03T09:30:00+00:00''),
                (''id'', VStr ''64b7f0c2a1b2c3d4e5f60003'')])"
    by (simp add: serialize_id_def order_1003_def convert_datetimes_def utc_isoformat_def
        day_of_def digit_char_def zpad_numeral)
  have n: "\<not> truthy_doc None" by simp
  from serialize_id_consumes_id [of "Some order_1003" sample_rt
      "Some [(''order_number'', VStr ''ORD-1003''),
             (''customer_name'', VStr ''Maya Khan''),
             (''status'', VStr ''shipped''),
             (''created_at'', VStr ''2024-05-03T09:30:00+00:00''),
             (''id'', VStr ''64b7f0c2a1b2c3d4e5f60003'')]"]
    serialize_id_consumes_id [of None sample_rt None] t e n
  show ?thesis by blast
qed

section \<open>What the serializer leaves in a record\<close>

text \<open>
  C3, as stated: no store identifier and no timestamp remain at any depth. They do: a
  value inside an array or a sub-object is not visited.
\<close>

theorem serialize_id_nested_counterexample:
  "serialize_id sample_rt (Some nested_order) =
     Inr (Some [(''items'', VList [VDict [(''product_id'', VOid (Oid ''64b7f0c2a1b2c3d4e5f6000a'')),
                                          (''shipped_at'', VDate (day_of 4))]]),
                (''id'', VStr ''64b7f0c2a1b2c3d4e5f60004'')]) \<and>
   \<not> safe_val (VDict [(''items'', VList [VDict [(''product_id'', VOid (Oid ''64b7f0c2a1b2c3d4e5f6000a'')),
                                          (''shipped_at'', VDate (day_of 4))]]),
                (''id'', VStr ''64b7f0c2a1b2c3d4e5f60004'')])"
  by (simp add: serialize_id_def nested_order_def convert_datetimes_def)


text \<open>
  C3, amended to the top level. For a record with the field \<^verbatim>\<open>_id\<close>, the serializer
  returns a record without \<^verbatim>\<open>_id\<close>, whose \<^verbatim>\<open>id\<close> is the identifier as a string, and
  in which every other field is rendered: a timestamp field became ISO-8601 text ending
  in the offset \<^verbatim>\<open>+00:00\<close>, any other field (arrays and sub-objects included) is
  unchanged. No field of the result is a timestamp.
\<close>

theorem serialize_id_top_level:
  assumes wf: "wf_doc d" and idv: "map_of d ''_id'' = Some v"
  shows "\<exists>out. serialize_id rt (Some d) = Inr (Some out) \<and> wf_doc out \<and>
           map_of out ''_id'' = None \<and>
           map_of out ''id'' = Some (VStr (py_str rt v)) \<and>
           (\<forall>k. k \<noteq> ''_id'' \<and> k \<noteq> ''id'' \<longrightarrow> map_of out k = map_option rendered (map_of d k)) \<and>
           (\<forall>k t. map_of out k \<noteq> Some (VDate t)) \<and>
           (\<forall>t. suffix ''+00:00'' (utc_isoformat t))"
proof -
  let ?d1 = "AList.update ''id'' (VStr (py_str rt v)) (AList.delete ''_id'' d)"
  let ?out = "convert_datetimes ?d1"
  have ne: "d \<noteq> []" using idv by auto
  have ser: "serialize_id rt (Some d) = Inr (Some ?out)"
    using ne idv by (simp add: serialize_id_def)
  have d1: "distinct (map fst ?d1)"
    using wf by (simp add: wf_doc_def distinct_update distinct_delete)
  have m: "\<And>k. map_of ?out k = map_option rendered (map_of ?d1 k)"
    by (rule map_of_convert[OF d1])
  have m1: "\<And>k. map_of ?d1 k = (if k = ''id'' then Some (VStr (py_str rt v))
                                 else if k = ''_id'' then None else map_of d k)"
    by (simp add: update_conv' delete_conv')
  have a: "map_of ?out ''_id'' = None" by (simp add: m m1)
  have b: "map_of ?out ''id'' = Some (VStr (py_str rt v))" by (simp add: m m1)
  have c: "\<forall>k. k \<noteq> ''_id'' \<and> k \<noteq> ''id'' \<longrightarrow> map_of ?out k = map_option rendered (map_of d k)"
    by (simp add: m m1)
  have r: "\<And>x t. rendered x \<noteq> VDate t"
  proof -
    fix x t show "rendered x \<noteq> VDate t" by (cases x) simp_all
  qed
  have e: "\<forall>k t. map_of ?out k \<noteq> Some (VDate t)"
  proof (intro allI)
    fix k t
    show "map_of ?out k \<noteq> Some (VDate t)"
      using r by (cases "map_of ?d1 k") (simp_all add: m)
  qed
  have f: "\<forall>t. suffix ''+00:00'' (utc_isoformat t)" by (simp add: iso_suffix)
  have w: "wf_doc ?out" unfolding wf_doc_def by (rule distinct_convert[OF d1])
  from ser w a b c e f show ?thesis by blast
qed

theorem serialize_id_top_level_witness:
  "wf_doc order_1001 \<and> map_of order_1001 ''_id'' = Some (VOid (Oid ''64b7f0c2a1b2c3d4e5f60001'')) \<and>
   (\<exists>out. serialize_id sample_rt (Some order_1001) = Inr (Some out) \<and> wf_doc out \<and>
           map_of out ''_id'' = None \<and>
           map_of out ''id'' = Some (VStr ''64b7f0c2a1b2c3d4e5f60001'') \<and>
           map_of out ''created_at'' = Some (VStr ''2024-05-01T09:30:00+00:00'') \<and>
           map_of out ''status'' = Some (VStr ''pending'') \<and>
           (\<forall>k t. map_of out k \<noteq> Some (VDate t)))"
proof -
  have h1: "wf_doc order_1001" by (simp add: wf_doc_def order_1001_def)
  have h2: "map_of order_1001 ''_id'' = Some (VOid (Oid ''64b7f0c2a1b2c3d4e5f60001''))"
    by (simp add: order_1001_def)
  have c: "map_option rendered (map_of order_1001 ''created_at'') = Some (VStr ''2024-05-01T09:30:00+00:00'')"
    by (simp add: order_1001_def utc_isoformat_def day_of_def digit_char_def zpad_numeral)
  have s: "map_option rendered (map_of order_1001 ''status'') = Some (VStr ''pending'')"
    by (simp add: order_1001_def)
  from serialize_id_top_level [OF h1 h2, of sample_rt] obtain out where
    o: "serialize_id sample_rt (Some order_1001) = Inr (Some out)" "wf_doc out"
       "map_of out ''_id'' = None"
       "map_of out ''id'' = Some (VStr (py_str sample_rt (VOid (Oid ''64b7f0c2a1b2c3d4e5f60001''))))"
       "\<forall>k. k \<noteq> ''_id'' \<and> k \<noteq> ''id'' \<longrightarrow> map_of out k = map_option rendered (map_of order_1001 k)"
       "\<forall>k t. map_of out k \<noteq> Some (VDate t)"
    by blast
  have "map_of out ''created_at'' = Some (VStr ''2024-05-01T09:30:00+00:00'')"
    using o(5) c by simp
  moreover have "map_of out ''status'' = Some (VStr ''pending'')"
    using o(5) s by simp
  moreover have "map_of out ''id'' = Some (VStr ''64b7f0c2a1b2c3d4e5f60001'')"
    using o(4) by simp
  ultimately show ?thesis using h1 h2 o(1,2,3,6) by blast
qed

section \<open>Identifiers that do not parse\<close>

text \<open>
  C4, as stated: every identifier that does not parse gives 400, never 500. With no
  store configured both handlers answer 500 before they look at the identifier.
\<close>

theorem invalid_id_unconfigured_counterexample:
  "ObjectId ''not-an-id'' = Inl InvalidId \<and>
   http_status (fst (get_order sample_rt None ''not-an-id'')) = 500 \<and>
   http_status (fst (update_order_status sample_rt None ''not-an-id'' \<lparr>status = ''shipped''\<rparr> (day_of 5))) = 500"
  by (simp add: ObjectId_def get_order_def update_order_status_def)


text \<open>
  C4, amended. With a store configured, an identifier that does not parse makes the
  single-order fetch and the status update raise the client error 400, and the store is
  returned as it was: no call was made to it and no document changed. With no store
  configured both raise 500.
\<close>

theorem invalid_id_rejected:
  assumes "ObjectId order_id = Inl InvalidId"
  shows "get_order rt (Some st) order_id = (Inl (HTTPException 400 ''Invalid order id''), Some st) \<and>
         update_order_status rt (Some st) order_id payload now
           = (Inl (HTTPException 400 ''Invalid order id''), Some st) \<and>
         get_order rt None order_id = (Inl (HTTPException 500 ''Database not configured''), None) \<and>
         update_order_status rt None order_id payload now
           = (Inl (HTTPException 500 ''Database not configured''), None)"
  using assms by (simp add: get_order_def update_order_status_def)

theorem invalid_id_rejected_witness:
  "ObjectId ''not-an-id'' = Inl InvalidId \<and>
   get_order sample_rt (Some sample_store) ''not-an-id''
     = (Inl (HTTPException 400 ''Invalid order id''), Some sample_store) \<and>
   update_order_status sample_rt (Some sample_store) ''not-an-id'' \<lparr>status = ''shipped''\<rparr> (day_of 5)
     = (Inl (HTTPException 400 ''Invalid order id''), Some sample_store)"
proof -
  have h: "ObjectId ''not-an-id'' = Inl InvalidId" by (simp add: ObjectId_def)
  from invalid_id_rejected [OF h, of sample_rt sample_store "\<lparr>status = ''shipped''\<rparr>" "day_of 5"] h
  show ?thesis by simp
qed

section \<open>A failing store\<close>

text \<open>
  C5. The identifier parses and the server is unreachable. The call of \<^verbatim>\<open>find_one\<close>
  in the single-order fetch is inside the \<^verbatim>\<open>try\<close> block, so its exception becomes the
  client error 400 with the detail of an invalid identifier; in the status update the
  store is called outside the block and the exception leaves the handler, which is 500.
\<close>

theorem get_order_store_failure:
  "ObjectId ''64b7f0c2a1b2c3d4e5f60001'' = Inr (Oid ''64b7f0c2a1b2c3d4e5f60001'') \<and>
   fst (get_order down_rt (Some sample_store) ''64b7f0c2a1b2c3d4e5f60001'')
     = Inl (HTTPException 400 ''Invalid order id'') \<and>
   http_status (fst (get_order down_rt (Some sample_store) ''64b7f0c2a1b2c3d4e5f60001'')) = 400 \<and>
   fst (update_order_status down_rt (Some sample_store) ''64b7f0c2a1b2c3d4e5f60001''
          \<lparr>status = ''shipped''\<rparr> (day_of 5)) = Inl PyMongoError \<and>
   http_status (fst (update_order_status down_rt (Some sample_store) ''64b7f0c2a1b2c3d4e5f60001''
          \<lparr>status = ''shipped''\<rparr> (day_of 5))) = 500"
  by (simp add: oid_1001 get_order_def update_order_status_def find_one_def update_one_def
      down_rt_def sample_rt_def)

section \<open>The sort specification\<close>

lemma startswith_dash: "startswith x ''-'' = (x \<noteq> [] \<and> hd x = CHR ''-'')"
  by (cases x) (simp_all add: startswith_def)

lemma sort_field_dashes:
  "sort_spec = replicate (length (takeWhile (\<lambda>c. c = CHR ''-'') sort_spec)) CHR ''-'' @ sort_field sort_spec"
proof -
  have "\<forall>y\<in>set (takeWhile (\<lambda>c. c = CHR ''-'') sort_spec). y = CHR ''-''"
    by (auto dest: set_takeWhileD)
  then have "replicate (length (takeWhile (\<lambda>c. c = CHR ''-'') sort_spec)) CHR ''-''
      = takeWhile (\<lambda>c. c = CHR ''-'') sort_spec"
    by (rule replicate_length_same)
  then show ?thesis by (simp add: sort_field_def lstrip_def)
qed

lemma sort_field_no_dash: "\<not> startswith (sort_field sort_spec) ''-''"
proof -
  have "dropWhile (\<lambda>c. c = CHR ''-'') sort_spec \<noteq> [] \<Longrightarrow>
        hd (dropWhile (\<lambda>c. c = CHR ''-'') sort_spec) \<noteq> CHR ''-''"
    by (rule hd_dropWhile)
  then show ?thesis by (auto simp: startswith_dash sort_field_def lstrip_def)
qed

lemma cursor_sort:
  "c_sort (orders_cursor flt sort_spec page page_size) = Some (sort_field sort_spec, direction sort_spec)"
  by (simp add: orders_cursor_def limit_c_def skip_c_def sort_c_def find_c_def)


text \<open>
  C8, as stated: a single leading \<^verbatim>\<open>-\<close> is stripped. \<^verbatim>\<open>lstrip\<close> strips all of them.
\<close>

theorem sort_spec_double_dash_counterexample:
  "sort_field ''--created_at'' = ''created_at'' \<and>
   strip_single_dash ''--created_at'' = ''-created_at'' \<and>
   c_sort (orders_cursor [] ''--created_at'' 1 10) = Some (''created_at'', - 1)"
  by (simp add: sort_field_def lstrip_def direction_def startswith_def orders_cursor_def
      limit_c_def skip_c_def sort_c_def find_c_def)


text \<open>
  C8, amended. The listing sorts by the field and direction it computes from the sort
  specification: the field is the specification without all its leading \<^verbatim>\<open>-\<close>, so it
  never starts with one, and the direction is descending exactly when the specification
  starts with \<^verbatim>\<open>-\<close>, ascending otherwise.
\<close>

theorem sort_spec_parsing:
  "c_sort (orders_cursor flt sort_spec page page_size)
     = Some (sort_field sort_spec, direction sort_spec) \<and>
   (\<exists>n. sort_spec = replicate n CHR ''-'' @ sort_field sort_spec) \<and>
   \<not> startswith (sort_field sort_spec) ''-'' \<and>
   direction sort_spec
     = (case sort_spec of [] \<Rightarrow> 1 | c # r \<Rightarrow> if c = CHR ''-'' then - 1 else 1)"
proof (intro conjI)
  show "c_sort (orders_cursor flt sort_spec page page_size)
     = Some (sort_field sort_spec, direction sort_spec)"
    by (rule cursor_sort)
  show "\<exists>n. sort_spec = replicate n CHR ''-'' @ sort_field sort_spec"
    by (rule exI, rule sort_field_dashes)
  show "\<not> startswith (sort_field sort_spec) ''-''"
    by (rule sort_field_no_dash)
  show "direction sort_spec
     = (case sort_spec of [] \<Rightarrow> 1 | c # r \<Rightarrow> if c = CHR ''-'' then - 1 else 1)"
    by (cases sort_spec) (simp_all add: direction_def startswith_def)
qed

section \<open>Empty parameters\<close>

text \<open>
  C9. An empty \<^verbatim>\<open>q\<close> or \<^verbatim>\<open>status\<close> is treated as an absent one: the filter gets no
  clause from it, and the listing answers as it does without the parameter.
\<close>

theorem empty_q_status_as_absent:
  "list_orders rt db (Some []) stat sort_spec page page_size
     = list_orders rt db None stat sort_spec page page_size \<and>
   list_orders rt db q (Some []) sort_spec page page_size
     = list_orders rt db q None sort_spec page page_size \<and>
   build_filter (Some []) stat = build_filter None stat \<and>
   build_filter q (Some []) = build_filter q None \<and>
   build_filter (Some []) (Some []) = []"
proof -
  have e1: "build_filter (Some []) stat = build_filter None stat"
    by (simp add: build_filter_def)
  have e2: "build_filter q (Some []) = build_filter q None"
    by (simp add: build_filter_def)
  have e3: "build_filter (Some []) (Some []) = []"
    by (simp add: build_filter_def)
  have l1: "list_orders rt db (Some []) stat sort_spec page page_size
     = list_orders rt db None stat sort_spec page page_size"
    unfolding list_orders_def e1 by (rule refl)
  have l2: "list_orders rt db q (Some []) sort_spec page page_size
     = list_orders rt db q None sort_spec page page_size"
    unfolding list_orders_def e2 by (rule refl)
  from l1 l2 e1 e2 e3 show ?thesis by blast
qed

section \<open>Pagination\<close>

lemma serialize_all_ok:
  "list_all (\<lambda>d. map_of d ''_id'' \<noteq> None) ds \<Longrightarrow>
   \<exists>its. serialize_all rt ds = Inr its \<and>
         list_all2 (\<lambda>d it. serialize_id rt (Some d) = Inr it) ds its"
proof (induction ds)
  case Nil
  then show ?case by simp
next
  case (Cons d ds)
  then obtain its where its: "serialize_all rt ds = Inr its"
      "list_all2 (\<lambda>d it. serialize_id rt (Some d) = Inr it) ds its"
    by auto
  from Cons.prems obtain v where v: "map_of d ''_id'' = Some v" by auto
  then have "d \<noteq> []" by auto
  with v obtain x where x: "serialize_id rt (Some d) = Inr x"
    by (simp add: serialize_id_def)
  have "serialize_all rt (d # ds) = Inr (x # its)" using x its(1) by simp
  moreover have "list_all2 (\<lambda>d it. serialize_id rt (Some d) = Inr it) (d # ds) (x # its)"
    using x its(2) by simp
  ultimately show ?case by blast
qed

lemma cursor_result_orders:
  assumes "1 \<le> page_size"
  shows "cursor_result rt ds (orders_cursor (build_filter q stat) sort_spec page page_size)
     = page_slice (sort_docs rt (sort_field sort_spec) (direction sort_spec)
                     (filter (matches rt (build_filter q stat)) ds)) page page_size"
  using assms
  by (simp add: cursor_result_def orders_cursor_def limit_c_def skip_c_def sort_c_def find_c_def
      page_slice_def)

text \<open>
  C1. For every filter and sort specification, every page from 1 and every page size
  from 1 to 100, when the store answers both calls and the records of the page carry
  their \<^verbatim>\<open>_id\<close>, the listing returns the serialized records of the slice of the full
  filtered and sorted sequence that starts at \<open>(page - 1) * page_size\<close> and has at most
  \<open>page_size\<close> records, one item for each record in order, and the total is the number
  of records that match the filter.
\<close>

theorem list_orders_page:
  assumes pg: "1 \<le> page" and ps1: "1 \<le> page_size" and ps2: "page_size \<le> 100"
      and c1: "\<not> raises rt (CountDocuments (build_filter q stat))"
      and c2: "\<not> raises rt (Find (orders_cursor (build_filter q stat) sort_spec page page_size))"
      and ids: "list_all (\<lambda>d. map_of d ''_id'' \<noteq> None)
                 (page_slice (filtered_sorted rt st q stat sort_spec) page page_size)"
  shows "\<exists>its st'. list_orders rt (Some st) q stat sort_spec page page_size
             = (Inr \<lparr>r_items = its, r_page = page, r_page_size = page_size,
                     r_total = int (length (filter (matches rt (build_filter q stat)) (docs st)))\<rparr>,
                Some st') \<and>
           list_all2 (\<lambda>d it. serialize_id rt (Some d) = Inr it)
             (page_slice (filtered_sorted rt st q stat sort_spec) page page_size) its \<and>
           length its \<le> nat page_size \<and>
           docs st' = docs st"
proof -
  let ?flt = "build_filter q stat"
  let ?cur = "orders_cursor ?flt sort_spec page page_size"
  let ?slice = "page_slice (filtered_sorted rt st q stat sort_spec) page page_size"
  let ?st1 = "logged st (CountDocuments ?flt)"
  let ?st2 = "logged ?st1 (Find ?cur)"
  have cnt: "count_documents rt st ?flt
      = (Inr (int (length (filter (matches rt ?flt) (docs st)))), ?st1)"
    using c1 by (simp add: count_documents_def)
  have res: "cursor_result rt (docs ?st1) ?cur = ?slice"
    using cursor_result_orders[OF ps1] by (simp add: filtered_sorted_def logged_def)
  have it: "iterate rt ?st1 ?cur = (Inr ?slice, ?st2)"
    using c2 res by (simp add: iterate_def)
  from serialize_all_ok[OF ids] obtain its where its: "serialize_all rt ?slice = Inr its"
    "list_all2 (\<lambda>d it. serialize_id rt (Some d) = Inr it) ?slice its" by blast
  have lo: "list_orders rt (Some st) q stat sort_spec page page_size
      = (Inr \<lparr>r_items = its, r_page = page, r_page_size = page_size,
              r_total = int (length (filter (matches rt ?flt) (docs st)))\<rparr>, Some ?st2)"
    using pg ps1 ps2 cnt it its(1) by (simp add: list_orders_def Let_def)
  have len: "length its \<le> nat page_size"
  proof -
    have "length its = length ?slice" using its(2) by (simp add: list_all2_lengthD)
    also have "\<dots> \<le> nat page_size" by (simp add: page_slice_def)
    finally show ?thesis .
  qed
  have d: "docs ?st2 = docs st" by (simp add: logged_def)
  from lo its(2) len d show ?thesis by blast
qed

theorem list_orders_page_witness:
  "(1::int) \<le> 2 \<and> (2::int) \<le> 100 \<and>
   page_slice (filtered_sorted sample_rt sample_store None None ''-created_at'') 2 2 = [order_1001] \<and>
   (\<exists>its st'. list_orders sample_rt (Some sample_store) None None ''-created_at'' 2 2
             = (Inr \<lparr>r_items = its, r_page = 2, r_page_size = 2, r_total = 3\<rparr>, Some st') \<and>
           list_all2 (\<lambda>d it. serialize_id sample_rt (Some d) = Inr it) [order_1001] its \<and>
           length its \<le> 2 \<and> docs st' = docs sample_store)"
proof -
  have pg: "(1::int) \<le> 2" by simp
  have ps2: "(2::int) \<le> 100" by simp
  have c1: "\<not> raises sample_rt (CountDocuments (build_filter None None))"
    by (simp add: sample_rt_def)
  have c2: "\<not> raises sample_rt (Find (orders_cursor (build_filter None None) ''-created_at'' 2 2))"
    by (simp add: sample_rt_def)
  have sl: "page_slice (filtered_sorted sample_rt sample_store None None ''-created_at'') 2 2
      = [order_1001]"
    by (simp add: page_slice_def filtered_sorted_def sample_rt_def sample_store_def build_filter_def
        matches_def sort_field_def lstrip_def direction_def startswith_def order_key_def
        order_1001_def order_1002_def order_1003_def day_of_def)
  have ids: "list_all (\<lambda>d. map_of d ''_id'' \<noteq> None)
      (page_slice (filtered_sorted sample_rt sample_store None None ''-created_at'') 2 2)"
    unfolding sl by (simp add: order_1001_def)
  have n: "int (length (filter (matches sample_rt (build_filter None None)) (docs sample_store))) = 3"
    by (simp add: build_filter_def matches_def sample_store_def)
  from list_orders_page [OF pg pg ps2 c1 c2 ids] show ?thesis
    unfolding sl n using sl by simp
qed

section \<open>The status update\<close>

lemma update_first_some:
  "\<exists>d\<in>set ds. P d \<Longrightarrow>
   \<exists>i<length ds. P (ds ! i) \<and> (\<forall>j<i. \<not> P (ds ! j)) \<and> update_first P f ds = (ds[i := f (ds ! i)], 1)"
proof (induction ds)
  case Nil
  then show ?case by simp
next
  case (Cons d ds)
  show ?case
  proof (cases "P d")
    case True
    then have "0 < length (d # ds) \<and> P ((d # ds) ! 0) \<and> (\<forall>j<0. \<not> P ((d # ds) ! j)) \<and>
        update_first P f (d # ds) = ((d # ds)[0 := f ((d # ds) ! 0)], 1)"
      by simp
    then show ?thesis by blast
  next
    case False
    with Cons.prems have "\<exists>d\<in>set ds. P d" by simp
    from Cons.IH[OF this] obtain i where i: "i < length ds" "P (ds ! i)" "\<forall>j<i. \<not> P (ds ! j)"
      "update_first P f ds = (ds[i := f (ds ! i)], 1)" by blast
    have "\<forall>j<Suc i. \<not> P ((d # ds) ! j)"
    proof (intro allI impI)
      fix j assume "j < Suc i"
      then show "\<not> P ((d # ds) ! j)" using False i(3) by (cases j) simp_all
    qed
    then have "Suc i < length (d # ds) \<and> P ((d # ds) ! Suc i) \<and> (\<forall>j<Suc i. \<not> P ((d # ds) ! j)) \<and>
        update_first P f (d # ds) = ((d # ds)[Suc i := f ((d # ds) ! Suc i)], 1)"
      using i False by simp
    then show ?thesis by blast
  qed
qed

lemma matches_id:
  assumes "case map_of d ''_id'' of Some (VList vs) \<Rightarrow> False | _ \<Rightarrow> True"
  shows "matches rt [Eq ''_id'' (VOid oid)] d = (map_of d ''_id'' = Some (VOid oid))"
proof (cases "map_of d ''_id''")
  case None
  then show ?thesis by (simp add: matches_def)
next
  case (Some x)
  then show ?thesis using assms by (cases x) (simp_all add: matches_def)
qed

lemma oid_1002: "ObjectId ''64b7f0c2a1b2c3d4e5f60002'' = Inr (Oid ''64b7f0c2a1b2c3d4e5f60002'')"
  by (simp add: ObjectId_def is_hex_def isspace_def to_lower_def)

text \<open>
  C6, as stated: \<^verbatim>\<open>updated_at\<close> becomes the current time. The store keeps a timestamp
  to the millisecond, so a current time with 123456 microseconds is kept, and returned,
  with 123000.
\<close>

theorem status_update_millis_counterexample:
  "fst (update_order_status sample_rt (Some sample_store) ''64b7f0c2a1b2c3d4e5f60002''
          \<lparr>status = ''delivered''\<rparr>
          \<lparr>year = 2024, month = 5, day = 5, hour = 9, minute = 30, second = 0,
            microsecond = 123456\<rparr>)
     = Inr (Some [(''order_number'', VStr ''ORD-1002''),
                  (''customer_name'', VStr ''Liam Patel''),
                  (''status'', VStr ''delivered''),
                  (''created_at'', VStr ''2024-05-02T09:30:00+00:00''),
                  (''updated_at'', VStr ''2024-05-05T09:30:00.123000+00:00''),
                  (''id'', VStr ''64b7f0c2a1b2c3d4e5f60002'')]) \<and>
   utc_isoformat \<lparr>year = 2024, month = 5, day = 5, hour = 9, minute = 30, second = 0,
                   microsecond = 123456\<rparr> = ''2024-05-05T09:30:00.123456+00:00''"
  by (simp add: update_order_status_def oid_1002 update_one_def find_one_def logged_def
      sample_rt_def sample_store_def matches_def to_millis_def
      order_1001_def order_1002_def order_1003_def day_of_def
      serialize_id_def convert_datetimes_def utc_isoformat_def digit_char_def zpad_numeral)

text \<open>
  C6, amended. For an identifier that parses and is the \<^verbatim>\<open>_id\<close> of a stored record, in
  a collection where no \<^verbatim>\<open>_id\<close> is an array, and for any status string, the status
  update (when the store accepts the call) replaces one record with that \<^verbatim>\<open>_id\<close> by a
  record whose \<^verbatim>\<open>status\<close> is the given string and whose \<^verbatim>\<open>updated_at\<close> is the current
  time cut to the millisecond; every other field of that record and every other record
  of the collection is as before.
\<close>

theorem status_update_frame:
  assumes p: "ObjectId order_id = Inr oid"
      and ex: "\<exists>d\<in>set (docs st). map_of d ''_id'' = Some (VOid oid)"
      and ids: "scalar_ids st"
      and ok: "\<not> raises rt (UpdateOne [Eq ''_id'' (VOid oid)]
                 (Set [(''status'', VStr (status payload)), (''updated_at'', VDate now)]))"
  shows "\<exists>st' i d'. snd (update_order_status rt (Some st) order_id payload now) = Some st' \<and>
           i < length (docs st) \<and> map_of (docs st ! i) ''_id'' = Some (VOid oid) \<and>
           docs st' = (docs st)[i := d'] \<and>
           map_of d' ''status'' = Some (VStr (status payload)) \<and>
           map_of d' ''updated_at'' = Some (VDate (to_millis now)) \<and>
           (\<forall>k. k \<noteq> ''status'' \<and> k \<noteq> ''updated_at'' \<longrightarrow> map_of d' k = map_of (docs st ! i) k)"
proof -
  let ?flt = "[Eq ''_id'' (VOid oid)]"
  let ?upd = "Set [(''status'', VStr (status payload)), (''updated_at'', VDate now)]"
  have sc: "\<And>d. d \<in> set (docs st) \<Longrightarrow>
      (case map_of d ''_id'' of Some (VList vs) \<Rightarrow> False | _ \<Rightarrow> True)"
    using ids by (simp add: scalar_ids_def list_all_iff)
  from ex obtain d0 where d0: "d0 \<in> set (docs st)" "map_of d0 ''_id'' = Some (VOid oid)" by blast
  then have "matches rt ?flt d0" using matches_id[OF sc[OF d0(1)]] by simp
  with d0(1) have "\<exists>d\<in>set (docs st). matches rt ?flt d" by blast
  from update_first_some[OF this, of "apply_update ?upd"] obtain i where
    i: "i < length (docs st)" "matches rt ?flt (docs st ! i)"
       "update_first (matches rt ?flt) (apply_update ?upd) (docs st)
          = ((docs st)[i := apply_update ?upd (docs st ! i)], 1)"
    by blast
  let ?d' = "apply_update ?upd (docs st ! i)"
  let ?st1 = "(logged st (UpdateOne ?flt ?upd))\<lparr>docs := (docs st)[i := ?d']\<rparr>"
  have u: "update_one rt st ?flt ?upd = (Inr 1, ?st1)"
    using ok i(3) by (simp add: update_one_def)
  have f: "docs (snd (find_one rt ?st1 ?flt)) = (docs st)[i := ?d']"
    by (simp add: find_one_def logged_def)
  have r: "\<exists>st'. snd (update_order_status rt (Some st) order_id payload now) = Some st' \<and>
             docs st' = (docs st)[i := ?d']"
  proof (cases "find_one rt ?st1 ?flt")
    case (Pair res st2)
    with f have d2: "docs st2 = (docs st)[i := ?d']" by simp
    show ?thesis
      using p u Pair d2 by (cases res) (simp_all add: update_order_status_def)
  qed
  then obtain st' where st': "snd (update_order_status rt (Some st) order_id payload now) = Some st'"
    "docs st' = (docs st)[i := ?d']" by blast
  have a: "map_of ?d' ''status'' = Some (VStr (status payload))" by (simp add: update_conv')
  have b: "map_of ?d' ''updated_at'' = Some (VDate (to_millis now))" by (simp add: update_conv')
  have c: "\<forall>k. k \<noteq> ''status'' \<and> k \<noteq> ''updated_at'' \<longrightarrow> map_of ?d' k = map_of (docs st ! i) k"
    by (simp add: update_conv')
  have "docs st ! i \<in> set (docs st)" using i(1) by simp
  from matches_id[OF sc[OF this]] i(2)
  have idm: "map_of (docs st ! i) ''_id'' = Some (VOid oid)" by simp
  from st' i(1) idm a b c show ?thesis by blast
qed

theorem status_update_frame_witness:
  "ObjectId ''64b7f0c2a1b2c3d4e5f60002'' = Inr (Oid ''64b7f0c2a1b2c3d4e5f60002'') \<and>
   (\<exists>d\<in>set (docs sample_store). map_of d ''_id'' = Some (VOid (Oid ''64b7f0c2a1b2c3d4e5f60002''))) \<and>
   scalar_ids sample_store \<and>
   (\<exists>st' i d'. snd (update_order_status sample_rt (Some sample_store) ''64b7f0c2a1b2c3d4e5f60002''
                      \<lparr>status = ''delivered''\<rparr> (day_of 5\<lparr>microsecond := 123456\<rparr>)) = Some st' \<and>
           i < length (docs sample_store) \<and>
           map_of (docs sample_store ! i) ''_id'' = Some (VOid (Oid ''64b7f0c2a1b2c3d4e5f60002'')) \<and>
           docs st' = (docs sample_store)[i := d'] \<and>
           map_of d' ''status'' = Some (VStr ''delivered'') \<and>
           map_of d' ''updated_at'' = Some (VDate (day_of 5\<lparr>microsecond := 123000\<rparr>)) \<and>
           (\<forall>k. k \<noteq> ''status'' \<and> k \<noteq> ''updated_at'' \<longrightarrow> map_of d' k = map_of (docs sample_store ! i) k))"
proof -
  have h1: "ObjectId ''64b7f0c2a1b2c3d4e5f60002'' = Inr (Oid ''64b7f0c2a1b2c3d4e5f60002'')"
    by (rule oid_1002)
  have h2: "\<exists>d\<in>set (docs sample_store). map_of d ''_id'' = Some (VOid (Oid ''64b7f0c2a1b2c3d4e5f60002''))"
    by (simp add: sample_store_def order_1001_def order_1002_def order_1003_def)
  have h3: "scalar_ids sample_store"
    by (simp add: scalar_ids_def sample_store_def order_1001_def order_1002_def order_1003_def)
  have h4: "\<not> raises sample_rt (UpdateOne [Eq ''_id'' (VOid (Oid ''64b7f0c2a1b2c3d4e5f60002''))]
                 (Set [(''status'', VStr (status \<lparr>status = ''delivered''\<rparr>)),
                       (''updated_at'', VDate (day_of 5\<lparr>microsecond := 123456\<rparr>))]))"
    by (simp add: sample_rt_def)
  have m: "to_millis (day_of 5\<lparr>microsecond := 123456\<rparr>) = day_of 5\<lparr>microsecond := 123000\<rparr>"
    by (simp add: to_millis_def day_of_def)
  from status_update_frame [OF h1 h2 h3 h4] h1 h2 h3 show ?thesis
    unfolding m by simp
qed

section \<open>The search filter\<close>

lemma rx_parse_literal: "list_all (\<lambda>c. \<not> rx_meta c) p \<Longrightarrow> rx_parse p = Some (map RLit p)"
  by (induction p) (auto simp: rx_meta_def)

lemma rx_here_literal: "rx_here True (map RLit p) s = prefix (map to_lower p) (map to_lower s)"
  by (induction p arbitrary: s) (case_tac s; auto)+

lemma rx_find_literal: "rx_find True (map RLit p) s = sublist (map to_lower p) (map to_lower s)"
proof (induction s)
  case Nil
  then show ?case by (cases p) auto
next
  case (Cons x xs)
  have "rx_find True (map RLit p) (x # xs)
      = (prefix (map to_lower p) (map to_lower (x # xs)) \<or> sublist (map to_lower p) (map to_lower xs))"
    using Cons by (simp add: rx_here_literal del: rx_here.simps)
  then show ?case by (simp add: sublist_Cons_right)
qed

lemma regex_search_literal:
  assumes "list_all literal_char q" "list_all is_ascii s"
  shows "regex_search rt q ''i'' s = ci_substring q s"
proof -
  have a: "list_all is_ascii q" and m: "list_all (\<lambda>c. \<not> rx_meta c) q"
    using assms(1) by (simp_all add: list_all_iff literal_char_def)
  show ?thesis
    using a assms(2) by (simp add: regex_search_def rx_parse_literal[OF m] rx_find_literal ci_substring_def)
qed

lemma regex_cond:
  assumes "list_all literal_char q"
      and "case v of Some (VStr s) \<Rightarrow> list_all is_ascii s | Some (VList vs) \<Rightarrow> False | _ \<Rightarrow> True"
  shows "cond_holds rt v (Regex q ''i'')
     = (case v of Some (VStr s) \<Rightarrow> ci_substring q s | _ \<Rightarrow> False)"
proof (cases v)
  case None
  then show ?thesis by simp
next
  case (Some x)
  then show ?thesis using assms by (cases x) (simp_all add: regex_search_literal)
qed

lemma eq_cond:
  assumes "case map_of d f of Some (VList vs) \<Rightarrow> False | _ \<Rightarrow> True"
  shows "clause_holds rt d (Eq f v) = (map_of d f = Some v)"
proof (cases "map_of d f")
  case None
  then show ?thesis by simp
next
  case (Some x)
  then show ?thesis using assms by (cases x) simp_all
qed

text \<open>
  C7, as stated: for every \<open>q\<close>, metacharacters included, the filter matches exactly the
  records in which \<open>q\<close> occurs as a substring. The term is given to the store as a
  regular expression: \<^verbatim>\<open>.\<close> matches a record in which no dot occurs.
\<close>

theorem q_filter_dot_counterexample:
  "matches sample_rt (build_filter (Some ''.'') None) order_1001 \<and> \<not> q_occurs ''.'' order_1001"
  by (simp add: build_filter_def matches_def regex_search_def is_ascii_def order_1001_def
      q_occurs_def ci_substring_def to_lower_def sublist_Cons_right)

text \<open>
  C7, amended. For a non-empty \<open>q\<close> of ASCII characters without metacharacters, and a
  record whose \<^verbatim>\<open>order_number\<close>, \<^verbatim>\<open>customer_name\<close> and \<^verbatim>\<open>email\<close> are ASCII where they
  are strings and are not arrays, and whose \<^verbatim>\<open>status\<close> is not an array, the filter
  matches the record exactly when \<open>q\<close> occurs as a case-insensitive substring of one of
  its string fields \<^verbatim>\<open>order_number\<close>, \<^verbatim>\<open>customer_name\<close>, \<^verbatim>\<open>email\<close> and, when a
  non-empty status is given, the record's \<^verbatim>\<open>status\<close> is that string.
\<close>

theorem q_filter_literal:
  assumes ne: "q \<noteq> []" and lit: "list_all literal_char q" and tr: "text_record d"
  shows "matches rt (build_filter (Some q) stat) d
     = (q_occurs q d \<and>
        (case stat of None \<Rightarrow> True | Some s \<Rightarrow> s = [] \<or> map_of d ''status'' = Some (VStr s)))"
proof -
  have f: "\<And>f. f \<in> set [''order_number'', ''customer_name'', ''email''] \<Longrightarrow>
      (case map_of d f of Some (VStr s) \<Rightarrow> list_all is_ascii s | Some (VList vs) \<Rightarrow> False | _ \<Rightarrow> True)"
    using tr unfolding text_record_def list_all_iff by blast
  have c: "\<And>f. f \<in> set [''order_number'', ''customer_name'', ''email''] \<Longrightarrow>
      cond_holds rt (map_of d f) (Regex q ''i'')
        = (case map_of d f of Some (VStr s) \<Rightarrow> ci_substring q s | _ \<Rightarrow> False)"
    by (rule regex_cond[OF lit f])
  have o: "clause_holds rt d (Or [(''order_number'', Regex q ''i''),
                                (''customer_name'', Regex q ''i''),
                                (''email'', Regex q ''i'')]) = q_occurs q d"
    using c[of "''order_number''"] c[of "''customer_name''"] c[of "''email''"]
    by (simp add: q_occurs_def)
  have st: "case map_of d ''status'' of Some (VList vs) \<Rightarrow> False | _ \<Rightarrow> True"
    using tr by (simp add: text_record_def)
  have e: "\<And>s. clause_holds rt d (Eq ''status'' (VStr s)) = (map_of d ''status'' = Some (VStr s))"
    by (rule eq_cond[OF st])
  show ?thesis
  proof (cases stat)
    case None
    then show ?thesis using ne o by (simp add: build_filter_def matches_def)
  next
    case (Some s)
    then show ?thesis using ne o e by (simp add: build_filter_def matches_def del: clause_holds.simps)
  qed
qed

theorem q_filter_literal_witness:
  "''maya'' \<noteq> [] \<and> list_all literal_char ''maya'' \<and> text_record order_1003 \<and>
   matches sample_rt (build_filter (Some ''maya'') (Some ''shipped'')) order_1003 \<and>
   q_occurs ''maya'' order_1003 \<and> map_of order_1003 ''status'' = Some (VStr ''shipped'') \<and>
   \<not> matches sample_rt (build_filter (Some ''maya'') (Some ''pending'')) order_1003"
proof -
  have h2: "''maya'' \<noteq> []" by simp
  have h3: "list_all literal_char ''maya''" by (simp add: literal_char_def rx_meta_def is_ascii_def)
  have h4: "text_record order_1003" by (simp add: text_record_def order_1003_def is_ascii_def)
  have o: "q_occurs ''maya'' order_1003"
    by (simp add: q_occurs_def order_1003_def ci_substring_def to_lower_def sublist_Cons_right)
  have s: "map_of order_1003 ''status'' = Some (VStr ''shipped'')" by (simp add: order_1003_def)
  from q_filter_literal [OF h2 h3 h4, of sample_rt "Some ''shipped''"]
    q_filter_literal [OF h2 h3 h4, of sample_rt "Some ''pending''"] h2 h3 h4 o s
  show ?thesis by simp
qed

end
